theory Spec2Isabelle
  imports Main "HOL-Library.Word"
begin

unbundle bit_operations_syntax

section \<open>Python values\<close>

text \<open>
  A Python \<open>str\<close> is a sequence of Unicode code points, so a string is a list of
  code points (natural numbers). String literals of the source are written with
  \<open>lit\<close>, which maps each character of the literal to its code point.
\<close>

type_synonym pystr = "nat list"

definition lit :: "string \<Rightarrow> pystr" where
  "lit s = map of_char s"

text \<open>
  The values that \<open>json.load\<close> and \<open>model_dump\<close> produce: \<open>None\<close>, booleans, integers,
  floats (kept as the bit pattern of the IEEE double, the code never computes with
  them), strings, lists and dicts with string keys. A dict is the list of its items in
  insertion order; the keys of a Python dict are pairwise distinct.
\<close>

datatype pyval =
    PNone
  | PBool bool
  | PInt int
  | PFloat "64 word"
  | PStr pystr
  | PList "pyval list"
  | PDict "(pystr \<times> pyval) list"

text \<open>Python truthiness (\<open>if x:\<close>, \<open>not x\<close>) of these values.\<close>

fun truthy :: "pyval \<Rightarrow> bool" where
  "truthy PNone = False"
| "truthy (PBool b) = b"
| "truthy (PInt i) = (i \<noteq> 0)"
| "truthy (PFloat w) = (push_bit 1 w \<noteq> 0)"
| "truthy (PStr s) = (s \<noteq> [])"
| "truthy (PList xs) = (xs \<noteq> [])"
| "truthy (PDict kvs) = (kvs \<noteq> [])"

section \<open>Data sanitizer\<close>

text \<open>
  \<^verbatim>\<open>data.replace('\x00', '')\<close> deletes every occurrence of the one-character
  pattern NUL.
\<close>

definition replace_nul :: "pystr \<Rightarrow> pystr" where
  "replace_nul s = filter (\<lambda>c. c \<noteq> 0) s"

text \<open>
  The character class \<^verbatim>\<open>[\x01-\x08\x0B\x0C\x0E-\x1F\x7F]\<close> of the regular
  expression, and \<^verbatim>\<open>re.sub(class, '', s)\<close>, which deletes every character of the class.
\<close>

definition in_ctrl_class :: "nat \<Rightarrow> bool" where
  "in_ctrl_class c \<longleftrightarrow>
     (1 \<le> c \<and> c \<le> 8) \<or> c = 11 \<or> c = 12 \<or> (14 \<le> c \<and> c \<le> 31) \<or> c = 127"

definition re_sub_ctrl :: "pystr \<Rightarrow> pystr" where
  "re_sub_ctrl s = filter (\<lambda>c. \<not> in_ctrl_class c) s"

text \<open>
  \<^verbatim>\<open>
  def sanitize_data(data):
      if data is None: return None
      if isinstance(data, str):
          sanitized = data.replace('\x00', '')
          sanitized = re.sub(r'[\x01-\x08\x0B\x0C\x0E-\x1F\x7F]', '', sanitized)
          return sanitized
      elif isinstance(data, dict):
          return {key: sanitize_data(value) for key, value in data.items()}
      elif isinstance(data, list):
          return [sanitize_data(item) for item in data]
      return data
  \<close>
\<close>

fun sanitize_data :: "pyval \<Rightarrow> pyval" where
  "sanitize_data PNone = PNone"
| "sanitize_data (PStr s) = PStr (re_sub_ctrl (replace_nul s))"
| "sanitize_data (PDict kvs) = PDict (map (\<lambda>(key, v). (key, sanitize_data v)) kvs)"
| "sanitize_data (PList xs) = PList (map sanitize_data xs)"
| "sanitize_data (PBool b) = PBool b"
| "sanitize_data (PInt i) = PInt i"
| "sanitize_data (PFloat w) = PFloat w"

subsection \<open>What the sanitizer is measured against\<close>

text \<open>The characters the specification lists for removal: NUL, the C0 controls other
  than tab, newline and carriage return, and DEL.\<close>

definition removed_char :: "nat \<Rightarrow> bool" where
  "removed_char c \<longleftrightarrow>
     c = 0 \<or> (1 \<le> c \<and> c \<le> 8) \<or> c = 11 \<or> c = 12 \<or> (14 \<le> c \<and> c \<le> 31) \<or> c = 127"

text \<open>The string values of a nested value, in traversal order (dict keys are not
  values), and the value with every string value blanked: what is left is the
  non-string structure (dict keys and their order, list lengths and order, scalars).\<close>

fun leaf_strings :: "pyval \<Rightarrow> pystr list" where
  "leaf_strings (PStr s) = [s]"
| "leaf_strings (PList xs) = concat (map leaf_strings xs)"
| "leaf_strings (PDict kvs) = concat (map (\<lambda>(key, v). leaf_strings v) kvs)"
| "leaf_strings PNone = []"
| "leaf_strings (PBool b) = []"
| "leaf_strings (PInt i) = []"
| "leaf_strings (PFloat w) = []"

fun skeleton :: "pyval \<Rightarrow> pyval" where
  "skeleton (PStr s) = PStr []"
| "skeleton (PList xs) = PList (map skeleton xs)"
| "skeleton (PDict kvs) = PDict (map (\<lambda>(key, v). (key, skeleton v)) kvs)"
| "skeleton PNone = PNone"
| "skeleton (PBool b) = PBool b"
| "skeleton (PInt i) = PInt i"
| "skeleton (PFloat w) = PFloat w"

section \<open>Tokenizer and chunker\<close>

text \<open>
  The fields of \<open>GenericDataExtractor\<close> that chunking reads. The tokenizer is the
  external \<open>tiktoken\<close> encoding: its \<open>encode\<close> and \<open>decode\<close> are parameters, and a
  token is a value of any type \<open>'tok\<close>. \<open>max_tokens\<close> and \<open>token_overlap\<close> are Python
  integers, so they may be zero or negative.
\<close>

record 'tok extractor =
  max_tokens :: int
  token_overlap :: int
  encode :: "pystr \<Rightarrow> 'tok list"
  decode :: "'tok list \<Rightarrow> pystr"

text \<open>
  A Python slice \<^verbatim>\<open>xs[i:j]\<close>: a negative bound counts from the end, and both bounds are
  clamped to \<open>[0, len(xs)]\<close>; the slice is empty when the upper bound is not above
  the lower one.
\<close>

definition slice_index :: "int \<Rightarrow> int \<Rightarrow> nat" where
  "slice_index n i = nat (if i < 0 then max 0 (n + i) else min i n)"

definition py_slice :: "'a list \<Rightarrow> int \<Rightarrow> int \<Rightarrow> 'a list" where
  "py_slice xs i j =
     (let n = int (length xs); lo = slice_index n i; hi = slice_index n j
      in take (hi - lo) (drop lo xs))"

definition count_tokens :: "'tok extractor \<Rightarrow> pystr \<Rightarrow> int" where
  "count_tokens self text = int (length (encode self text))"

text \<open>
  \<^verbatim>\<open>
  def chunk_text(self, text):
      tokens = self.tokenizer.encode(text)
      total_tokens = len(tokens)
      if self.max_tokens >= total_tokens:
          return [text]
      chunks = []
      start_idx = 0
      while start_idx < total_tokens:
          end_idx = min(start_idx + self.max_tokens, total_tokens)
          chunks.append(self.tokenizer.decode(tokens[start_idx:end_idx]))
          if end_idx == total_tokens:
              break
          start_idx = end_idx - self.token_overlap
      return chunks
  \<close>
  The \<open>while\<close> loop need not end (take \<open>max_tokens = -1\<close>, \<open>token_overlap = 0\<close>), so
  it is a partial function: \<open>None\<close> stands for a loop that runs forever.
\<close>

partial_function (option) chunk_loop ::
  "'tok extractor \<Rightarrow> 'tok list \<Rightarrow> int \<Rightarrow> pystr list \<Rightarrow> pystr list option" where
  "chunk_loop self tokens start_idx chunks =
     (if start_idx < int (length tokens) then
        (let end_idx = min (start_idx + max_tokens self) (int (length tokens));
             chunks' = chunks @ [decode self (py_slice tokens start_idx end_idx)]
         in if end_idx = int (length tokens) then Some chunks'
            else chunk_loop self tokens (end_idx - token_overlap self) chunks')
      else Some chunks)"

definition chunk_text :: "'tok extractor \<Rightarrow> pystr \<Rightarrow> pystr list option" where
  "chunk_text self text =
     (let tokens = encode self text; total_tokens = int (length tokens)
      in if max_tokens self \<ge> total_tokens then Some [text]
         else chunk_loop self tokens 0 [])"

subsection \<open>The token windows of the loop\<close>

text \<open>
  The index pairs \<open>(start_idx, end_idx)\<close> that the loop visits from a given start, for
  a window width \<open>M\<close>, an overlap \<open>ov\<close> and \<open>T\<close> tokens. The pairs are only followed
  while \<open>ov < M\<close>, where each start is above the one before, so this function is
  total. \<open>window_text\<close> is the chunk the loop appends for one pair.
\<close>

function windows_from :: "int \<Rightarrow> int \<Rightarrow> int \<Rightarrow> int \<Rightarrow> (int \<times> int) list" where
  "windows_from M ov T s =
     (if s < T \<and> ov < M then
        (let e = min (s + M) T
         in (s, e) # (if e = T then [] else windows_from M ov T (e - ov)))
      else [])"
  by pat_completeness auto
termination
  by (relation "measure (\<lambda>(M, ov, T, s). nat (T - s))") auto

declare windows_from.simps [simp del]

definition window_text :: "'tok extractor \<Rightarrow> 'tok list \<Rightarrow> int \<times> int \<Rightarrow> pystr" where
  "window_text self tokens w = decode self (py_slice tokens (fst w) (snd w))"

section \<open>Extraction orchestrator\<close>

text \<open>
  What the orchestrator reaches outside the sources: \<open>extract_text\<close> reads the file
  through the document libraries (\<open>Inl\<close> is the text of the exception it raised),
  \<open>json_dumps\<close> is \<^verbatim>\<open>json.dumps(_, indent=2)\<close>, and \<open>chat_parse\<close> is the model call
  \<^verbatim>\<open>client.chat.completions.parse\<close> with a system prompt and a user text. The model
  service is not a function of its arguments, so it reads and updates a world \<open>'w\<close>.
\<close>

datatype completion =
    Raised pystr
  | Message "pystr option" "pyval option"

text \<open>
  \<open>Raised e\<close>: the call, or reading \<^verbatim>\<open>completion.choices[0].message\<close>, raised an exception
  with \<open>str(e) = e\<close>. \<open>Message refusal parsed\<close>: the message's \<open>refusal\<close> (\<open>None\<close> or a
  string) and, when \<open>parsed\<close> is not \<open>None\<close>, its \<open>model_dump()\<close>; a parsed model object
  is always truthy.
\<close>

record 'w env =
  extract_text :: "pystr \<Rightarrow> pystr + pystr"
  json_dumps :: "pyval \<Rightarrow> pystr"
  chat_parse :: "'w \<Rightarrow> pystr \<Rightarrow> pystr \<Rightarrow> completion \<times> 'w"

text \<open>The world together with the log of the model calls made so far, each with its
  system prompt and user text.\<close>

record 'w session =
  world :: 'w
  calls :: "(pystr \<times> pystr) list"

text \<open>
  The result dict \<^verbatim>\<open>{"status": ..., "data": ..., "message": ...}\<close>. Every result the
  code builds has the keys \<open>status\<close> and \<open>message\<close>; \<open>data = None\<close> is a dict without the
  key \<open>data\<close>, and \<open>data = Some PNone\<close> is the key present with the value \<open>None\<close>.
\<close>

record result =
  status :: pystr
  data :: "pyval option"
  message :: pystr

text \<open>
  \<^verbatim>\<open>
  async def extract_structured(self, text, previous_data=None):
      system_prompt = "You are a specialized data extraction agent. Extract all required information from the provided text."
      if previous_data:
          system_prompt += f"\n\nPrevious data (merge and update):\n{json.dumps(previous_data, indent=2)}"
      try:
          completion = await self.client.chat.completions.parse(...)
          resp = completion.choices[0].message
          if resp.refusal:
              return {"status": "failed", "message": f"Refusal: {resp.refusal}"}
          if resp.parsed:
              return {"status": "success",
                      "data": self.sanitize_data(resp.parsed.model_dump()),
                      "message": "Extraction successful"}
          return {"status": "failed", "message": "Failed to parse response"}
      except Exception as e:
          return {"status": "failed", "message": str(e)}
  \<close>
\<close>

definition system_prompt_of :: "'w env \<Rightarrow> pyval \<Rightarrow> pystr" where
  "system_prompt_of env previous_data =
     lit ''You are a specialized data extraction agent. Extract all required information from the provided text.''
     @ (if truthy previous_data
        then [10, 10] @ lit ''Previous data (merge and update):'' @ [10] @ json_dumps env previous_data
        else [])"

definition result_of_completion :: "completion \<Rightarrow> result" where
  "result_of_completion c =
     (case c of
        Raised e \<Rightarrow> \<lparr>status = lit ''failed'', data = None, message = e\<rparr>
      | Message refusal parsed \<Rightarrow>
          (case refusal of
             Some (r # rs) \<Rightarrow>
               \<lparr>status = lit ''failed'', data = None, message = lit ''Refusal: '' @ (r # rs)\<rparr>
           | _ \<Rightarrow>
               (case parsed of
                  Some d \<Rightarrow>
                    \<lparr>status = lit ''success'', data = Some (sanitize_data d),
                     message = lit ''Extraction successful''\<rparr>
                | None \<Rightarrow>
                    \<lparr>status = lit ''failed'', data = None,
                     message = lit ''Failed to parse response''\<rparr>)))"

definition extract_structured ::
  "'w env \<Rightarrow> pystr \<Rightarrow> pyval \<Rightarrow> 'w session \<Rightarrow> result \<times> 'w session" where
  "extract_structured env text previous_data st =
     (let system_prompt = system_prompt_of env previous_data;
          (c, w') = chat_parse env (world st) system_prompt text
      in (result_of_completion c,
          \<lparr>world = w', calls = calls st @ [(system_prompt, text)]\<rparr>))"

text \<open>\<open>str(n)\<close> of a natural number, in decimal, for the f-strings.\<close>

function str_nat :: "nat \<Rightarrow> pystr" where
  "str_nat n = (if n < 10 then [48 + n] else str_nat (n div 10) @ [48 + n mod 10])"
  by pat_completeness auto
termination
  by (relation "measure id") auto

declare str_nat.simps [simp del]

text \<open>
  \<^verbatim>\<open>
  accumulated = None
  for idx, chunk in enumerate(chunks, 1):
      chunk_tokens = self.count_tokens(chunk)        # logged only
      result = await self.extract_structured(chunk, accumulated)
      if result["status"] == "success":
          accumulated = result["data"]
      else:
          if accumulated:
              return {"status": "failed", "data": accumulated,
                      "message": f"Partial failure at chunk {idx}/{num_chunks}: {result['message']}"}
          return result
  return {"status": "success", "data": accumulated,
          "message": f"All {num_chunks} chunks processed"}
  \<close>
  A successful result without the key \<open>data\<close> would raise \<open>KeyError('data')\<close>, which the
  enclosing \<^verbatim>\<open>except Exception as e\<close> turns into a failed result with message \<open>str(e)\<close>.
\<close>

fun process_chunks ::
  "'w env \<Rightarrow> nat \<Rightarrow> nat \<Rightarrow> pystr list \<Rightarrow> pyval \<Rightarrow> 'w session \<Rightarrow> result \<times> 'w session" where
  "process_chunks env num_chunks idx [] accumulated st =
     (\<lparr>status = lit ''success'', data = Some accumulated,
       message = lit ''All '' @ str_nat num_chunks @ lit '' chunks processed''\<rparr>, st)"
| "process_chunks env num_chunks idx (chunk # rest) accumulated st =
     (case extract_structured env chunk accumulated st of (result, st') \<Rightarrow>
        if status result = lit ''success'' then
          (case data result of
             Some d \<Rightarrow> process_chunks env num_chunks (idx + 1) rest d st'
           | None \<Rightarrow>
               (\<lparr>status = lit ''failed'', data = None, message = [39] @ lit ''data'' @ [39]\<rparr>, st'))
        else if truthy accumulated then
          (\<lparr>status = lit ''failed'', data = Some accumulated,
            message = lit ''Partial failure at chunk '' @ str_nat idx @ lit ''/''
                      @ str_nat num_chunks @ lit '': '' @ message result\<rparr>, st')
        else (result, st'))"

text \<open>
  \<open>str.isspace\<close> on one code point (the Unicode whitespace characters) and
  \<open>str.strip()\<close>, which removes whitespace from both ends.
\<close>

definition py_isspace :: "nat \<Rightarrow> bool" where
  "py_isspace c \<longleftrightarrow>
     (9 \<le> c \<and> c \<le> 13) \<or> (28 \<le> c \<and> c \<le> 32) \<or> c = 133 \<or> c = 160 \<or> c = 5760
     \<or> (8192 \<le> c \<and> c \<le> 8202) \<or> c = 8232 \<or> c = 8233 \<or> c = 8239 \<or> c = 8287
     \<or> c = 12288"

definition py_strip :: "pystr \<Rightarrow> pystr" where
  "py_strip s = rev (dropWhile py_isspace (rev (dropWhile py_isspace s)))"

text \<open>
  \<^verbatim>\<open>
  async def process_file(self, file_path):
      try:
          text = await asyncio.to_thread(self.extract_text, file_path)
          if not text.strip():
              return {"status": "failed", "message": "No text content found"}
          ...
          chunks = self.chunk_text(text)
          num_chunks = len(chunks)
          (the loop over the chunks)
      except Exception as e:
          return {"status": "failed", "message": str(e)}
  \<close>
  The result is \<open>None\<close> when the chunking loop never returns.
\<close>

definition process_file ::
  "'w env \<Rightarrow> 'tok extractor \<Rightarrow> pystr \<Rightarrow> 'w session \<Rightarrow> (result \<times> 'w session) option" where
  "process_file env self file_path st =
     (case extract_text env file_path of
        Inl e \<Rightarrow> Some (\<lparr>status = lit ''failed'', data = None, message = e\<rparr>, st)
      | Inr text \<Rightarrow>
          if py_strip text = [] then
            Some (\<lparr>status = lit ''failed'', data = None,
                   message = lit ''No text content found''\<rparr>, st)
          else
            (case chunk_text self text of
               None \<Rightarrow> None
             | Some chunks \<Rightarrow> Some (process_chunks env (length chunks) 1 chunks PNone st)))"

subsection \<open>Runs in which every chunk succeeds\<close>

text \<open>
  \<open>all_succeed env chunks acc st\<close> makes the model call for each chunk in turn, each
  with the data of the chunk before it, and is \<open>Some (acc', st')\<close> exactly when every
  call gave a successful result: \<open>acc'\<close> is the data of the last one (\<open>acc\<close> when there
  is no chunk).
\<close>

fun all_succeed ::
  "'w env \<Rightarrow> pystr list \<Rightarrow> pyval \<Rightarrow> 'w session \<Rightarrow> (pyval \<times> 'w session) option" where
  "all_succeed env [] acc st = Some (acc, st)"
| "all_succeed env (chunk # rest) acc st =
     (case extract_structured env chunk acc st of (result, st') \<Rightarrow>
        if status result = lit ''success'' then
          (case data result of Some d \<Rightarrow> all_succeed env rest d st' | None \<Rightarrow> None)
        else None)"

subsection \<open>A scripted model service\<close>

text \<open>A model service that answers from a list of prepared completions, one per call,
  and an environment around it in which a file's text is its path.\<close>

fun scripted :: "completion list \<Rightarrow> pystr \<Rightarrow> pystr \<Rightarrow> completion \<times> completion list" where
  "scripted [] system_prompt text = (Raised (lit ''connection closed''), [])"
| "scripted (c # cs) system_prompt text = (c, cs)"

definition show_data :: "pyval \<Rightarrow> pystr" where
  "show_data v = lit ''<data>''"

definition scripted_env :: "(completion list) env" where
  "scripted_env = \<lparr>extract_text = Inr, json_dumps = show_data, chat_parse = scripted\<rparr>"

definition char_tokens :: "int \<Rightarrow> int \<Rightarrow> nat extractor" where
  "char_tokens m ov = \<lparr>max_tokens = m, token_overlap = ov, encode = id, decode = id\<rparr>"

section \<open>Schema compiler\<close>

text \<open>
  The model descriptor the compiler builds. \<open>TStr\<close>, \<open>TInt\<close>, \<open>TFloat\<close>, \<open>TBool\<close> and \<open>TAny\<close>
  are \<open>str\<close>, \<open>int\<close>, \<open>float\<close>, \<open>bool\<close> and \<open>typing.Any\<close>; \<open>TList t\<close> is \<open>List[t]\<close>;
  \<open>TDict k v\<close> is \<open>Dict[k, v]\<close>; \<open>TModel name config fields\<close> is the class that
  \<^verbatim>\<open>create_model(name, __config__=config, **fields)\<close> returns, each field a pair of its
  type and its \<^verbatim>\<open>Field(default, description=...)\<close>. A default of \<open>Ellipsis\<close> (written
  \<^verbatim>\<open>...\<close> in Python) marks the field required. \<open>create_model\<close> belongs to the pydantic
  library and is taken as the constructor of the descriptor.
\<close>

datatype default_value = Ellipsis | Default pyval

datatype field_info = Field default_value pyval

datatype config = ConfigDict pystr

datatype pytype =
    TStr | TInt | TFloat | TBool | TAny
  | TList pytype
  | TDict pytype pytype
  | TModel pystr config "(pystr \<times> pytype \<times> field_info) list"

datatype pyerror = TypeError | AttributeError

text \<open>\<^verbatim>\<open>d.get(key, default)\<close> on the items of a dict.\<close>

definition dict_get :: "(pystr \<times> pyval) list \<Rightarrow> pystr \<Rightarrow> pyval \<Rightarrow> pyval" where
  "dict_get d key dflt = (case map_of d key of Some v \<Rightarrow> v | None \<Rightarrow> dflt)"

text \<open>
  \<^verbatim>\<open>
  mapping = {"string": str, "integer": int, "number": float, "boolean": bool}
  return mapping.get(json_type, Any)
  \<close>
  Looking a key up hashes it first: a list or a dict is unhashable and the lookup
  raises \<open>TypeError\<close>.
\<close>

fun hashable :: "pyval \<Rightarrow> bool" where
  "hashable (PList xs) = False"
| "hashable (PDict kvs) = False"
| "hashable v = True"

definition base_type :: "pyval \<Rightarrow> pyerror + pytype" where
  "base_type json_type =
     (if \<not> hashable json_type then Inl TypeError
      else if json_type = PStr (lit ''string'') then Inr TStr
      else if json_type = PStr (lit ''integer'') then Inr TInt
      else if json_type = PStr (lit ''number'') then Inr TFloat
      else if json_type = PStr (lit ''boolean'') then Inr TBool
      else Inr TAny)"

text \<open>
  \<^verbatim>\<open>
  def _resolve_python_type(cls, field_info, model_name_hint):
      json_type = field_info.get("type", "string")
      if json_type == "array":
          items = field_info.get("items", {})
          if not items:
              return List[str]
          inner_type = cls._resolve_python_type(items, f"{model_name_hint}Item")
          return List[inner_type]
      if json_type == "object":
          nested_properties = field_info.get("properties", {})
          if not nested_properties:
              return Dict[str, Any]
          nested_fields = {}
          for n_name, n_info in nested_properties.items():
              n_type = cls._resolve_python_type(n_info, f"{model_name_hint}_{n_name.capitalize()}")
              n_desc = n_info.get("description", "")
              nested_fields[n_name] = (n_type, Field(..., description=n_desc))
          return create_model(model_name_hint, __config__=ConfigDict(extra="forbid"), **nested_fields)
      mapping = {...}
      return mapping.get(json_type, Any)
  \<close>
  \<open>field_info\<close> is whatever \<open>json.load\<close> gave: calling \<open>.get\<close> or \<open>.items\<close> on a value
  that is not a dict raises \<open>AttributeError\<close>. \<open>str.capitalize\<close> is the parameter \<open>cap\<close>.
  \<open>resolve_fields\<close> is the \<open>for\<close> loop over the nested properties; it stops at the
  first exception.
\<close>

function (sequential) resolve_python_type ::
    "(pystr \<Rightarrow> pystr) \<Rightarrow> pyval \<Rightarrow> pystr \<Rightarrow> pyerror + pytype"
  and resolve_fields ::
    "(pystr \<Rightarrow> pystr) \<Rightarrow> (pystr \<times> pyval) list \<Rightarrow> pystr
       \<Rightarrow> pyerror + (pystr \<times> pytype \<times> field_info) list" where
  "resolve_python_type cap (PDict d) model_name_hint =
     (let json_type = dict_get d (lit ''type'') (PStr (lit ''string'')) in
      if json_type = PStr (lit ''array'') then
        (let items = dict_get d (lit ''items'') (PDict []) in
         if \<not> truthy items then Inr (TList TStr)
         else (case resolve_python_type cap items (model_name_hint @ lit ''Item'') of
                 Inl e \<Rightarrow> Inl e
               | Inr inner_type \<Rightarrow> Inr (TList inner_type)))
      else if json_type = PStr (lit ''object'') then
        (let nested_properties = dict_get d (lit ''properties'') (PDict []) in
         if \<not> truthy nested_properties then Inr (TDict TStr TAny)
         else (case nested_properties of
                 PDict props \<Rightarrow>
                   (case resolve_fields cap props model_name_hint of
                      Inl e \<Rightarrow> Inl e
                    | Inr nested_fields \<Rightarrow>
                        Inr (TModel model_name_hint (ConfigDict (lit ''forbid'')) nested_fields))
               | _ \<Rightarrow> Inl AttributeError))
      else base_type json_type)"
| "resolve_python_type cap field_info model_name_hint = Inl AttributeError"
| "resolve_fields cap [] model_name_hint = Inr []"
| "resolve_fields cap ((n_name, n_info) # rest) model_name_hint =
     (case resolve_python_type cap n_info (model_name_hint @ lit ''_'' @ cap n_name) of
        Inl e \<Rightarrow> Inl e
      | Inr n_type \<Rightarrow>
          (case n_info of
             PDict nd \<Rightarrow>
               (let n_desc = dict_get nd (lit ''description'') (PStr []) in
                case resolve_fields cap rest model_name_hint of
                  Inl e \<Rightarrow> Inl e
                | Inr nested_fields \<Rightarrow> Inr ((n_name, n_type, Field Ellipsis n_desc) # nested_fields))
           | _ \<Rightarrow> Inl AttributeError))"
  by pat_completeness auto
termination
proof (relation "measure (\<lambda>x. case x of Inl (cap, v, h) \<Rightarrow> size v
                                      | Inr (cap, kvs, h) \<Rightarrow> size (PDict kvs))",
       goal_cases)
  have lookup: "truthy (dict_get d key (PDict [])) \<Longrightarrow>
                size (dict_get d key (PDict [])) < size (PDict d)" for d key
  proof (induction d)
    case Nil
    then show ?case by (simp add: dict_get_def)
  next
    case (Cons kv d)
    then show ?case by (cases kv) (auto simp: dict_get_def split: if_splits option.splits)
  qed
  {
    case 1
    show ?case by simp
  next
    case (2 cap d model_name_hint json_type items)
    with lookup [of d "lit ''items''"] show ?case by simp
  next
    case (3 cap d model_name_hint json_type nested_properties props)
    then have "dict_get d (lit ''properties'') (PDict []) = PDict props"
      and "truthy (dict_get d (lit ''properties'') (PDict []))"
      by simp_all
    with lookup [of d "lit ''properties''"] have "size (PDict props) < size (PDict d)"
      by simp
    then show ?case by simp
  next
    case 4
    show ?case by simp
  next
    case 5
    show ?case by simp
  }
qed

declare resolve_python_type.simps [simp del]



subsection \<open>Strictness of a descriptor\<close>

text \<open>
  A field is required when its default is \<open>Ellipsis\<close>; a model is closed when its
  configuration has \<open>extra = "forbid"\<close>. \<open>models_strict t\<close>: every model inside \<open>t\<close>, at
  any depth, is closed and has only required fields. \<open>objects_closed t\<close> asks in
  addition that \<open>t\<close> contains no \<open>Dict\<close> type: a value of type \<open>Dict[str, Any]\<close> is an
  object with whatever keys it likes, so such a node admits undeclared properties.
\<close>

fun required :: "field_info \<Rightarrow> bool" where
  "required (Field dflt description) = (dflt = Ellipsis)"




subsection \<open>An example schema\<close>

text \<open>\<open>str.capitalize\<close> restricted to ASCII letters, for the examples.\<close>

definition ascii_upper :: "nat \<Rightarrow> nat" where
  "ascii_upper c = (if 97 \<le> c \<and> c \<le> 122 then c - 32 else c)"

definition ascii_lower :: "nat \<Rightarrow> nat" where
  "ascii_lower c = (if 65 \<le> c \<and> c \<le> 90 then c + 32 else c)"

fun ascii_capitalize :: "pystr \<Rightarrow> pystr" where
  "ascii_capitalize [] = []"
| "ascii_capitalize (c # cs) = ascii_upper c # map ascii_lower cs"



section \<open>Properties of the sanitizer\<close>

lemma sanitize_str_filter:
  "re_sub_ctrl (replace_nul s) = filter (\<lambda>c. \<not> removed_char c) s"
  by (induction s) (auto simp: re_sub_ctrl_def replace_nul_def removed_char_def in_ctrl_class_def)

lemma sanitize_str_idem:
  "re_sub_ctrl (replace_nul (re_sub_ctrl (replace_nul s))) = re_sub_ctrl (replace_nul s)"
  by (simp add: sanitize_str_filter)

lemma leaf_strings_sanitize:
  "leaf_strings (sanitize_data x) = map (filter (\<lambda>c. \<not> removed_char c)) (leaf_strings x)"
proof (induction x)
  case (PList xs)
  then show ?case by (induction xs) simp_all
next
  case (PDict kvs)
  then have "\<forall>kv \<in> set kvs. leaf_strings (sanitize_data (snd kv)) =
               map (filter (\<lambda>c. \<not> removed_char c)) (leaf_strings (snd kv))"
    by (auto simp: snds.simps)
  then show ?case by (induction kvs) (simp_all add: case_prod_beta)
qed (simp_all add: sanitize_str_filter)

lemma skeleton_sanitize: "skeleton (sanitize_data x) = skeleton x"
proof (induction x)
  case (PDict kvs)
  then have "map ((\<lambda>(key, v). (key, skeleton v)) \<circ> (\<lambda>(key, v). (key, sanitize_data v))) kvs =
             map (\<lambda>(key, v). (key, skeleton v)) kvs"
    by (intro map_cong) (auto simp: snds.simps)
  then show ?case by simp
qed simp_all

text \<open>
  C7. For every nested value, no string value of the sanitized output contains NUL or
  a character of the ranges 0x01-0x08, 0x0B, 0x0C, 0x0E-0x1F, 0x7F; each output
  string is the input string with exactly those characters deleted, so all other
  characters (tab, newline and carriage return among them) stay, in their order; and
  the non-string structure (dict keys, list order, other scalars) is unchanged.
\<close>

theorem sanitize_data_strips_controls:
  "(\<forall>s \<in> set (leaf_strings (sanitize_data x)). \<forall>c \<in> set s. \<not> removed_char c)
   \<and> leaf_strings (sanitize_data x) = map (filter (\<lambda>c. \<not> removed_char c)) (leaf_strings x)
   \<and> \<not> removed_char 9 \<and> \<not> removed_char 10 \<and> \<not> removed_char 13
   \<and> skeleton (sanitize_data x) = skeleton x"
proof -
  have "\<forall>s \<in> set (leaf_strings (sanitize_data x)). \<forall>c \<in> set s. \<not> removed_char c"
    by (auto simp: leaf_strings_sanitize)
  moreover have "\<not> removed_char 9 \<and> \<not> removed_char 10 \<and> \<not> removed_char 13"
    by (simp add: removed_char_def)
  ultimately show ?thesis
    by (simp add: leaf_strings_sanitize skeleton_sanitize)
qed

theorem sanitize_data_strips_controls_witness:
  "leaf_strings (sanitize_data (PDict [(lit ''a'', PList [PStr [72, 0, 9, 7, 105, 127, 10], PInt 3])]))
     = [[72, 9, 105, 10]]
   \<and> skeleton (sanitize_data (PDict [(lit ''a'', PList [PStr [72, 0, 9, 7, 105, 127, 10], PInt 3])]))
     = PDict [(lit ''a'', PList [PStr [], PInt 3])]
   \<and> \<not> removed_char 72 \<and> \<not> removed_char 9 \<and> \<not> removed_char 105 \<and> \<not> removed_char 10"
  using sanitize_data_strips_controls
    [of "PDict [(lit ''a'', PList [PStr [72, 0, 9, 7, 105, 127, 10], PInt 3])]"]
  by (simp add: removed_char_def)

text \<open>
  C8. The sanitizer is idempotent: sanitizing a sanitized value gives the same value.
\<close>

theorem sanitize_data_idempotent: "sanitize_data (sanitize_data x) = sanitize_data x"
proof (induction x)
  case (PDict kvs)
  then have "map ((\<lambda>(key, v). (key, sanitize_data v)) \<circ> (\<lambda>(key, v). (key, sanitize_data v))) kvs =
             map (\<lambda>(key, v). (key, sanitize_data v)) kvs"
    by (intro map_cong) (auto simp: snds.simps)
  then show ?case by simp
qed (simp_all add: sanitize_str_idem)

section \<open>Properties of the chunker\<close>

lemma chunk_loop_windows:
  "token_overlap self < max_tokens self \<Longrightarrow>
   chunk_loop self tokens s acc =
     Some (acc @ map (window_text self tokens)
                  (windows_from (max_tokens self) (token_overlap self) (int (length tokens)) s))"
proof (induction "max_tokens self" "token_overlap self" "int (length tokens)" s
        arbitrary: acc rule: windows_from.induct)
  case (1 s)
  show ?case
  proof (cases "s < int (length tokens)")
    case False
    then show ?thesis
      by (subst chunk_loop.simps, subst windows_from.simps) simp
  next
    case True
    show ?thesis
    proof (cases "min (s + max_tokens self) (int (length tokens)) = int (length tokens)")
      case e: True
      with True 1(2) show ?thesis
        by (subst chunk_loop.simps, subst windows_from.simps) (simp add: Let_def window_text_def)
    next
      case e: False
      with True 1 show ?thesis
        by (subst chunk_loop.simps, subst windows_from.simps) (simp add: Let_def window_text_def)
    qed
  qed
qed

lemma windows_from_final:
  "s < T \<Longrightarrow> ov < M \<Longrightarrow> T \<le> s + M \<Longrightarrow> windows_from M ov T s = [(s, T)]"
  by (subst windows_from.simps) (simp add: Let_def)

lemma windows_from_step:
  "s < T \<Longrightarrow> ov < M \<Longrightarrow> s + M < T \<Longrightarrow>
   windows_from M ov T s = (s, s + M) # windows_from M ov T (s + M - ov)"
  by (subst windows_from.simps) (simp add: Let_def)

lemma windows_from_hd:
  "s < T \<Longrightarrow> ov < M \<Longrightarrow>
   windows_from M ov T s \<noteq> [] \<and> fst (windows_from M ov T s ! 0) = s"
  by (cases "T \<le> s + M") (simp_all add: windows_from_final windows_from_step)

lemma windows_from_last:
  "0 \<le> ov \<Longrightarrow> ov < M \<Longrightarrow> s < T \<Longrightarrow> snd (last (windows_from M ov T s)) = T"
proof (induction "nat (T - s)" arbitrary: s rule: less_induct)
  case less
  show ?case
  proof (cases "T \<le> s + M")
    case True
    with less.prems show ?thesis by (simp add: windows_from_final)
  next
    case False
    with less.prems have nxt: "s + M - ov < T" "nat (T - (s + M - ov)) < nat (T - s)"
      by simp_all
    from less.hyps [OF nxt(2) less.prems(1,2) nxt(1)]
         windows_from_hd [OF nxt(1) less.prems(2)] False less.prems
    show ?thesis by (simp add: windows_from_step)
  qed
qed

lemma windows_from_shape:
  "0 \<le> ov \<Longrightarrow> ov < M \<Longrightarrow> s < T \<Longrightarrow> k < length (windows_from M ov T s) \<Longrightarrow>
   s \<le> fst (windows_from M ov T s ! k) \<and>
   fst (windows_from M ov T s ! k) < snd (windows_from M ov T s ! k) \<and>
   snd (windows_from M ov T s ! k) = min (fst (windows_from M ov T s ! k) + M) T"
proof (induction "nat (T - s)" arbitrary: s k rule: less_induct)
  case less
  show ?case
  proof (cases "T \<le> s + M")
    case True
    with less.prems show ?thesis by (simp add: windows_from_final)
  next
    case False
    with less.prems have nxt: "s + M - ov < T" "nat (T - (s + M - ov)) < nat (T - s)"
      by simp_all
    show ?thesis
    proof (cases k)
      case 0
      with False less.prems show ?thesis by (simp add: windows_from_step)
    next
      case (Suc j)
      with False less.prems have "j < length (windows_from M ov T (s + M - ov))"
        by (simp add: windows_from_step)
      from less.hyps [OF nxt(2) less.prems(1,2) nxt(1) this]
      have "s + M - ov \<le> fst (windows_from M ov T (s + M - ov) ! j)"
        and "fst (windows_from M ov T (s + M - ov) ! j) < snd (windows_from M ov T (s + M - ov) ! j)"
        and "snd (windows_from M ov T (s + M - ov) ! j) =
             min (fst (windows_from M ov T (s + M - ov) ! j) + M) T"
        by blast+
      moreover have "windows_from M ov T s ! k = windows_from M ov T (s + M - ov) ! j"
        using Suc False less.prems by (simp add: windows_from_step)
      moreover have "s \<le> s + M - ov" using less.prems by simp
      ultimately show ?thesis by (metis order_trans)
    qed
  qed
qed

lemma windows_from_stride:
  "0 \<le> ov \<Longrightarrow> ov < M \<Longrightarrow> s < T \<Longrightarrow> Suc k < length (windows_from M ov T s) \<Longrightarrow>
   fst (windows_from M ov T s ! Suc k) = fst (windows_from M ov T s ! k) + (M - ov)"
proof (induction "nat (T - s)" arbitrary: s k rule: less_induct)
  case less
  show ?case
  proof (cases "T \<le> s + M")
    case True
    with less.prems show ?thesis by (simp add: windows_from_final)
  next
    case False
    with less.prems have nxt: "s + M - ov < T" "nat (T - (s + M - ov)) < nat (T - s)"
      by simp_all
    show ?thesis
    proof (cases k)
      case 0
      with False less.prems windows_from_hd [OF nxt(1) less.prems(2)]
      show ?thesis by (simp add: windows_from_step)
    next
      case (Suc j)
      with False less.prems have "Suc j < length (windows_from M ov T (s + M - ov))"
        by (simp add: windows_from_step)
      from less.hyps [OF nxt(2) less.prems(1,2) nxt(1) this] Suc False less.prems
      show ?thesis by (simp add: windows_from_step)
    qed
  qed
qed

lemma windows_from_cover:
  "0 \<le> ov \<Longrightarrow> ov < M \<Longrightarrow> s < T \<Longrightarrow> s \<le> t \<Longrightarrow> t < T \<Longrightarrow>
   \<exists>w \<in> set (windows_from M ov T s). fst w \<le> t \<and> t < snd w"
proof (induction "nat (T - s)" arbitrary: s rule: less_induct)
  case less
  show ?case
  proof (cases "T \<le> s + M")
    case True
    with less.prems show ?thesis by (simp add: windows_from_final)
  next
    case False
    with less.prems have nxt: "s + M - ov < T" "nat (T - (s + M - ov)) < nat (T - s)"
      by simp_all
    show ?thesis
    proof (cases "t < s + M")
      case True
      with False less.prems show ?thesis by (simp add: windows_from_step)
    next
      case far: False
      with less.prems have "s + M - ov \<le> t" by simp
      from less.hyps [OF nxt(2) less.prems(1,2) nxt(1) this less.prems(5)] False less.prems
      show ?thesis by (auto simp add: windows_from_step)
    qed
  qed
qed

text \<open>
  C4. A text whose token count is at most \<open>max_tokens\<close> comes back as exactly one
  chunk, the text itself, unchanged.
\<close>

theorem chunk_text_within_budget:
  "count_tokens self text \<le> max_tokens self \<Longrightarrow> chunk_text self text = Some [text]"
  by (simp add: chunk_text_def count_tokens_def Let_def)

theorem chunk_text_within_budget_witness:
  "count_tokens \<lparr>max_tokens = 4, token_overlap = 1, encode = id, decode = rev\<rparr> (lit ''abc'') \<le> 4
   \<and> chunk_text \<lparr>max_tokens = 4, token_overlap = 1, encode = id, decode = rev\<rparr> (lit ''abc'')
       = Some [lit ''abc'']"
  using chunk_text_within_budget
    [of "\<lparr>max_tokens = 4, token_overlap = 1, encode = id, decode = rev\<rparr>" "lit ''abc''"]
  by (simp add: count_tokens_def lit_def)

text \<open>
  C5. For a text of \<open>T > max_tokens = M\<close> tokens and an overlap \<open>0 \<le> O < M\<close>, the
  chunks are the decoded token windows \<open>windows_from M O T 0\<close>. The first window starts
  at 0, every window \<open>(a, b)\<close> has \<open>0 \<le> a < b = min (a + M) T\<close>, every window after
  the first starts \<open>M - O\<close> tokens after its predecessor's start, the last window
  ends at \<open>T\<close>, and every token index of \<open>[0, T)\<close> lies in some window.
\<close>

theorem chunk_text_windows_cover:
  assumes "max_tokens self < count_tokens self text"
    and "0 \<le> token_overlap self" and "token_overlap self < max_tokens self"
  shows "let M = max_tokens self; ov = token_overlap self; T = count_tokens self text;
             ws = windows_from M ov T 0
         in chunk_text self text = Some (map (window_text self (encode self text)) ws)
            \<and> ws \<noteq> [] \<and> fst (ws ! 0) = 0 \<and> snd (last ws) = T
            \<and> (\<forall>k < length ws. 0 \<le> fst (ws ! k) \<and> fst (ws ! k) < snd (ws ! k)
                                \<and> snd (ws ! k) = min (fst (ws ! k) + M) T)
            \<and> (\<forall>k. Suc k < length ws \<longrightarrow> fst (ws ! Suc k) = fst (ws ! k) + (M - ov))
            \<and> (\<forall>t. 0 \<le> t \<and> t < T \<longrightarrow> (\<exists>w \<in> set ws. fst w \<le> t \<and> t < snd w))"
proof -
  define M where "M = max_tokens self"
  define ov where "ov = token_overlap self"
  define T where "T = count_tokens self text"
  define ws where "ws = windows_from M ov T 0"
  have T: "T = int (length (encode self text))" by (simp add: T_def count_tokens_def)
  have pos: "0 < T" "0 \<le> ov" "ov < M" using assms by (simp_all add: M_def ov_def T_def)
  have "chunk_text self text = chunk_loop self (encode self text) 0 []"
    using assms(1) by (simp add: chunk_text_def count_tokens_def Let_def)
  then have c: "chunk_text self text = Some (map (window_text self (encode self text)) ws)"
    using chunk_loop_windows [OF assms(3), of "encode self text" 0 "[]"]
    by (simp add: ws_def M_def ov_def T)
  have h: "ws \<noteq> [] \<and> fst (ws ! 0) = 0"
    unfolding ws_def using windows_from_hd [OF pos(1,3)] .
  have l: "snd (last ws) = T"
    unfolding ws_def using windows_from_last [OF pos(2,3,1)] .
  have sh: "\<forall>k < length ws. 0 \<le> fst (ws ! k) \<and> fst (ws ! k) < snd (ws ! k)
                                \<and> snd (ws ! k) = min (fst (ws ! k) + M) T"
    unfolding ws_def using windows_from_shape [OF pos(2,3,1)] by blast
  have st: "\<forall>k. Suc k < length ws \<longrightarrow> fst (ws ! Suc k) = fst (ws ! k) + (M - ov)"
    unfolding ws_def using windows_from_stride [OF pos(2,3,1)] by blast
  have cv: "\<forall>t. 0 \<le> t \<and> t < T \<longrightarrow> (\<exists>w \<in> set ws. fst w \<le> t \<and> t < snd w)"
    unfolding ws_def using windows_from_cover [OF pos(2,3,1)] by blast
  from c h l sh st cv show ?thesis
    unfolding Let_def M_def [symmetric] ov_def [symmetric] T_def [symmetric] ws_def [symmetric]
    by blast
qed

theorem chunk_text_windows_cover_witness:
  "max_tokens \<lparr>max_tokens = 4, token_overlap = 1, encode = id, decode = rev\<rparr>
     < count_tokens \<lparr>max_tokens = 4, token_overlap = 1, encode = id, decode = rev\<rparr> (lit ''abcdefghij'')
   \<and> windows_from 4 1 10 0 = [(0, 4), (3, 7), (6, 10)]
   \<and> chunk_text \<lparr>max_tokens = 4, token_overlap = 1, encode = id, decode = rev\<rparr> (lit ''abcdefghij'')
       = Some [lit ''dcba'', lit ''gfed'', lit ''jihg'']"
proof -
  let ?self = "\<lparr>max_tokens = 4, token_overlap = 1, encode = id, decode = rev\<rparr> :: nat extractor"
  let ?text = "lit ''abcdefghij''"
  have n: "count_tokens ?self ?text = 10" by (simp add: count_tokens_def lit_def)
  have a: "max_tokens ?self < count_tokens ?self ?text" by (simp add: n)
  have b: "0 \<le> token_overlap ?self" by simp
  have c: "token_overlap ?self < max_tokens ?self" by simp
  have w: "windows_from 4 1 10 0 = [(0, 4), (3, 7), (6, 10)]"
    by (simp add: windows_from.simps)
  have "chunk_text ?self ?text =
        Some (map (window_text ?self (encode ?self ?text))
               (windows_from (max_tokens ?self) (token_overlap ?self) (count_tokens ?self ?text) 0))"
    using chunk_text_windows_cover [OF a b c] by (simp only: Let_def)
  then have "chunk_text ?self ?text = Some (map (window_text ?self (encode ?self ?text)) [(0, 4), (3, 7), (6, 10)])"
    by (simp only: n w extractor.simps)
  then have "chunk_text ?self ?text = Some [lit ''dcba'', lit ''gfed'', lit ''jihg'']"
    by (simp add: window_text_def py_slice_def slice_index_def lit_def)
  with a w show ?thesis by blast
qed

text \<open>
  C6. Whenever \<open>0 \<le> token_overlap < max_tokens\<close>, chunking returns: the loop, started
  at any index with any chunks collected so far, ends, because a window that does not
  reach the end of the tokens is followed by one that starts strictly later.
\<close>

theorem chunk_text_terminates:
  assumes "0 \<le> token_overlap self" and "token_overlap self < max_tokens self"
  shows "(\<exists>chunks. chunk_text self text = Some chunks)
         \<and> (\<forall>tokens s acc. \<exists>chunks. chunk_loop self tokens s acc = Some chunks)
         \<and> (\<forall>T s. min (s + max_tokens self) T \<noteq> T
                \<longrightarrow> s < min (s + max_tokens self) T - token_overlap self)"
proof -
  have loop: "\<exists>chunks. chunk_loop self tokens s acc = Some chunks" for tokens s acc
    using chunk_loop_windows [OF assms(2), of tokens s acc] by blast
  have "\<exists>chunks. chunk_text self text = Some chunks"
    using loop [of "encode self text" 0 "[]"] by (simp add: chunk_text_def Let_def)
  moreover have "\<forall>T s. min (s + max_tokens self) T \<noteq> T
                \<longrightarrow> s < min (s + max_tokens self) T - token_overlap self"
    using assms(2) by (auto simp: min_def)
  ultimately show ?thesis using loop by blast
qed

theorem chunk_text_terminates_witness:
  "(0::int) \<le> 1 \<and> (1::int) < 4
   \<and> (\<exists>chunks. chunk_text \<lparr>max_tokens = 4, token_overlap = 1, encode = id, decode = rev\<rparr>
                  (lit ''abcdefghij'') = Some chunks)"
  using chunk_text_terminates
    [of "\<lparr>max_tokens = 4, token_overlap = 1, encode = id, decode = rev\<rparr>" "lit ''abcdefghij''"]
  by simp

subsection \<open>The bound on the overlap is needed\<close>

text \<open>
  With \<open>token_overlap = max_tokens\<close> the second window starts where the first did, and
  the loop never returns: a text longer than one window has no chunking.
\<close>

lemma chunk_loop_returns_not_stuck:
  assumes r: "chunk_loop self tokens s acc = Some y"
  shows "\<not> (token_overlap self = max_tokens self \<and> 0 < max_tokens self
      \<and> max_tokens self < int (length tokens) \<and> s = 0)"
proof (rule chunk_loop.raw_induct
        [where P = "\<lambda>self tokens s acc y.
           \<not> (token_overlap self = max_tokens self \<and> 0 < max_tokens self
              \<and> max_tokens self < int (length tokens) \<and> s = 0)", OF _ r], goal_cases)
  case (1 f self tokens s acc y)
  show ?case
  proof
    assume a: "token_overlap self = max_tokens self \<and> 0 < max_tokens self
               \<and> max_tokens self < int (length tokens) \<and> s = 0"
    then have s: "s = 0" and ne: "tokens \<noteq> []"
      and m: "min (0 + max_tokens self) (int (length tokens)) = max_tokens self"
      and l: "max_tokens self \<noteq> int (length tokens)"
      and o: "max_tokens self - token_overlap self = 0"
      by auto
    from 1(2) have "f self tokens 0 (acc @ [decode self (py_slice tokens 0 (max_tokens self))]) = Some y"
      unfolding s Let_def m by (simp add: ne l o)
    from 1(1) [OF this] a show False by simp
  qed
qed

lemma chunk_text_stuck:
  assumes "token_overlap self = max_tokens self" and "0 < max_tokens self"
    and "max_tokens self < count_tokens self text"
  shows "chunk_text self text = None"
proof -
  have "chunk_loop self (encode self text) 0 [] = None"
    using chunk_loop_returns_not_stuck [of self "encode self text" 0 "[]"] assms
    by (cases "chunk_loop self (encode self text) 0 []") (auto simp: count_tokens_def)
  with assms(3) show ?thesis by (simp add: chunk_text_def count_tokens_def Let_def)
qed

section \<open>Properties of the orchestrator\<close>

lemma result_of_completion_failed:
  "status (result_of_completion c) \<noteq> lit ''success'' \<Longrightarrow>
   data (result_of_completion c) = None"
  by (auto simp: result_of_completion_def split: completion.splits option.splits list.splits)

lemma extract_structured_failed:
  "extract_structured env chunk acc st = (r, st') \<Longrightarrow> status r \<noteq> lit ''success'' \<Longrightarrow>
   data r = None"
  by (auto simp: extract_structured_def Let_def result_of_completion_failed split: prod.splits)

lemma process_chunks_after_successes:
  "all_succeed env pre acc st = Some (acc', st') \<Longrightarrow>
   process_chunks env n idx (pre @ rest) acc st =
   process_chunks env n (idx + length pre) rest acc' st'"
proof (induction pre arbitrary: acc st idx)
  case Nil
  then show ?case by simp
next
  case (Cons c pre)
  obtain r st1 where e: "extract_structured env c acc st = (r, st1)"
    by (cases "extract_structured env c acc st")
  with Cons.prems obtain d where s: "status r = lit ''success''" and d: "data r = Some d"
    and rest: "all_succeed env pre d st1 = Some (acc', st')"
    by (auto split: if_splits option.splits)
  from Cons.IH [OF rest, of "idx + 1"] e s d show ?case by simp
qed

lemma py_strip_empty: "py_strip text = [] \<longleftrightarrow> (\<forall>c \<in> set text. py_isspace c)"
proof
  assume "py_strip text = []"
  then have all: "\<forall>x \<in> set (dropWhile py_isspace text). py_isspace x"
    by (simp add: py_strip_def)
  have "dropWhile py_isspace text = []"
  proof (rule ccontr)
    assume ne: "dropWhile py_isspace text \<noteq> []"
    then have "\<not> py_isspace (hd (dropWhile py_isspace text))" by (rule hd_dropWhile)
    moreover from ne have "hd (dropWhile py_isspace text) \<in> set (dropWhile py_isspace text)"
      by simp
    ultimately show False using all by blast
  qed
  then show "\<forall>c \<in> set text. py_isspace c" by simp
next
  assume "\<forall>c \<in> set text. py_isspace c"
  then have "dropWhile py_isspace text = []" by simp
  then show "py_strip text = []" by (simp only: py_strip_def rev.simps dropWhile.simps)
qed

lemma process_file_at_failure:
  assumes "extract_text env path = Inr text" and "py_strip text \<noteq> []"
    and "chunk_text self text = Some chunks"
    and "1 \<le> i" and "i \<le> length chunks"
    and "all_succeed env (take (i - 1) chunks) PNone st = Some (acc, st1)"
    and "extract_structured env (chunks ! (i - 1)) acc st1 = (r, st2)"
    and "status r \<noteq> lit ''success''"
  shows "process_file env self path st =
         Some (if truthy acc then
                 (\<lparr>status = lit ''failed'', data = Some acc,
                   message = lit ''Partial failure at chunk '' @ str_nat i @ lit ''/''
                             @ str_nat (length chunks) @ lit '': '' @ message r\<rparr>, st2)
               else (r, st2))"
proof -
  obtain j where i: "i = Suc j" using assms(4) by (cases i) simp_all
  have j: "j < length chunks" using assms(5) i by simp
  have split: "chunks = take j chunks @ chunks ! j # drop i chunks"
    using id_take_nth_drop [OF j] i by simp
  have pre: "all_succeed env (take j chunks) PNone st = Some (acc, st1)"
    using assms(6) i by simp
  have step: "extract_structured env (chunks ! j) acc st1 = (r, st2)"
    using assms(7) i by simp
  define n where "n = length chunks"
  have c: "1 + length (take j chunks) = i" using j i by simp
  have "process_chunks env n 1 chunks PNone st =
        process_chunks env n 1 (take j chunks @ chunks ! j # drop i chunks) PNone st"
    using split by (rule arg_cong [where f = "\<lambda>c. process_chunks env n 1 c PNone st"])
  also have "\<dots> = process_chunks env n i (chunks ! j # drop i chunks) acc st1"
    using process_chunks_after_successes [OF pre, of n 1 "chunks ! j # drop i chunks"]
    unfolding c .
  also have "\<dots> = (if truthy acc then
                 (\<lparr>status = lit ''failed'', data = Some acc,
                   message = lit ''Partial failure at chunk '' @ str_nat i @ lit ''/''
                             @ str_nat n @ lit '': '' @ message r\<rparr>, st2)
               else (r, st2))"
    using step assms(8) by simp
  finally show ?thesis using assms(1,2,3) by (simp add: process_file_def n_def)
qed

subsection \<open>Evaluating the scripted service on a four-character text\<close>

lemma chunks_abcd:
  "chunk_text (char_tokens 2 0) (lit ''abcd'') = Some [lit ''ab'', lit ''cd'']"
  by (simp add: chunk_text_def char_tokens_def lit_def chunk_loop.simps py_slice_def
        slice_index_def Let_def)

lemma strip_abcd: "py_strip (lit ''abcd'') \<noteq> []"
  by (simp add: py_strip_def lit_def py_isspace_def)

lemma scripted_call:
  "extract_structured scripted_env text prev \<lparr>world = c # cs, calls = log\<rparr> =
     (result_of_completion c,
      \<lparr>world = cs, calls = log @ [(system_prompt_of scripted_env prev, text)]\<rparr>)"
  by (simp add: extract_structured_def scripted_env_def Let_def)

text \<open>
  C9. When the extracted text is empty or consists of whitespace only,
  \<open>process_file\<close> returns the failed result with the message \<open>No text content found\<close>
  and no \<open>data\<close>, and hands the session back as it was: the log of model calls has not
  grown, so no model call was made.
\<close>

theorem process_file_no_text_content:
  assumes "extract_text env path = Inr text" and "\<forall>c \<in> set text. py_isspace c"
  shows "process_file env self path st =
         Some (\<lparr>status = lit ''failed'', data = None,
                message = lit ''No text content found''\<rparr>, st)"
  using assms by (simp add: process_file_def py_strip_empty)

theorem process_file_no_text_content_witness:
  "extract_text scripted_env [32, 10, 9] = Inr [32, 10, 9]
   \<and> py_isspace 32 \<and> py_isspace 10 \<and> py_isspace 9
   \<and> process_file scripted_env (char_tokens 2 0) [32, 10, 9]
        \<lparr>world = [Message None (Some (PDict []))], calls = []\<rparr>
      = Some (\<lparr>status = lit ''failed'', data = None, message = lit ''No text content found''\<rparr>,
              \<lparr>world = [Message None (Some (PDict []))], calls = []\<rparr>)"
proof -
  have a: "extract_text scripted_env [32, 10, 9] = Inr [32, 10, 9]"
    by (simp add: scripted_env_def)
  have b: "py_isspace 32 \<and> py_isspace 10 \<and> py_isspace 9"
    by (simp add: py_isspace_def)
  then have c: "\<forall>c \<in> set [32, 10, 9]. py_isspace c" by simp
  from process_file_no_text_content [OF a c] a b show ?thesis by blast
qed

text \<open>
  C10. When chunk \<open>i\<close> fails and the data accumulated before it is falsy (\<open>None\<close>
  because no chunk came before, or an empty dict returned by chunk \<open>i - 1\<close>),
  \<open>process_file\<close> returns the failure result of chunk \<open>i\<close> itself, which has no
  \<open>data\<close> key: the partial-failure result is built only for truthy accumulated data.
\<close>

theorem process_file_failure_without_data:
  assumes "extract_text env path = Inr text" and "py_strip text \<noteq> []"
    and "chunk_text self text = Some chunks"
    and "1 \<le> i" and "i \<le> length chunks"
    and "all_succeed env (take (i - 1) chunks) PNone st = Some (acc, st1)"
    and "extract_structured env (chunks ! (i - 1)) acc st1 = (r, st2)"
    and "status r \<noteq> lit ''success''"
    and "\<not> truthy acc"
  shows "process_file env self path st = Some (r, st2) \<and> data r = None"
  using process_file_at_failure [OF assms(1-8)] extract_structured_failed [OF assms(7,8)] assms(9)
  by simp

theorem process_file_failure_without_data_witness:
  "chunk_text (char_tokens 2 0) (lit ''abcd'') = Some [lit ''ab'', lit ''cd'']
   \<and> all_succeed scripted_env (take (2 - 1) [lit ''ab'', lit ''cd'']) PNone
        \<lparr>world = [Message None (Some (PDict [])), Message (Some (lit ''no'')) None], calls = []\<rparr>
      = Some (PDict [],
              \<lparr>world = [Message (Some (lit ''no'')) None],
               calls = [(system_prompt_of scripted_env PNone, lit ''ab'')]\<rparr>)
   \<and> \<not> truthy (PDict [])
   \<and> process_file scripted_env (char_tokens 2 0) (lit ''abcd'')
        \<lparr>world = [Message None (Some (PDict [])), Message (Some (lit ''no'')) None], calls = []\<rparr>
      = Some (\<lparr>status = lit ''failed'', data = None, message = lit ''Refusal: no''\<rparr>,
              \<lparr>world = [],
               calls = [(system_prompt_of scripted_env PNone, lit ''ab''),
                        (system_prompt_of scripted_env (PDict []), lit ''cd'')]\<rparr>)"
proof -
  let ?st = "\<lparr>world = [Message None (Some (PDict [])), Message (Some (lit ''no'')) None],
              calls = []\<rparr>"
  let ?st1 = "\<lparr>world = [Message (Some (lit ''no'')) None],
               calls = [(system_prompt_of scripted_env PNone, lit ''ab'')]\<rparr>"
  let ?st2 = "\<lparr>world = [],
               calls = [(system_prompt_of scripted_env PNone, lit ''ab''),
                        (system_prompt_of scripted_env (PDict []), lit ''cd'')]\<rparr>"
  let ?r = "\<lparr>status = lit ''failed'', data = None, message = lit ''Refusal: no''\<rparr>"
  have a: "extract_text scripted_env (lit ''abcd'') = Inr (lit ''abcd'')"
    by (simp add: scripted_env_def)
  have i: "(1::nat) \<le> 2" "2 \<le> length [lit ''ab'', lit ''cd'']" by simp_all
  have pre: "all_succeed scripted_env (take (2 - 1) [lit ''ab'', lit ''cd'']) PNone ?st
             = Some (PDict [], ?st1)"
    by (simp add: scripted_call result_of_completion_def)
  have step: "extract_structured scripted_env ([lit ''ab'', lit ''cd''] ! (2 - 1)) (PDict []) ?st1
              = (?r, ?st2)"
    by (simp add: scripted_call result_of_completion_def lit_def)
  have f: "status ?r \<noteq> lit ''success''" by (simp add: lit_def)
  have e: "\<not> truthy (PDict [])" by simp
  from process_file_failure_without_data [OF a strip_abcd chunks_abcd i pre step f e]
       chunks_abcd pre e
  show ?thesis by blast
qed

text \<open>
  C1. As stated (a failure of chunk \<open>i \<ge> 2\<close> after successes always returns the data
  of chunk \<open>i - 1\<close> and a message naming chunk \<open>i\<close> of \<open>N\<close>) the claim fails when chunk
  \<open>i - 1\<close> returned an empty dict: the result is then the bare failure of chunk \<open>i\<close>.
  Here a text of two chunks, the first answered with an empty object, the second
  refused.
\<close>

theorem process_file_partial_failure_counterexample:
  "chunk_text (char_tokens 2 0) (lit ''abcd'') = Some [lit ''ab'', lit ''cd'']
   \<and> fst (extract_structured scripted_env (lit ''ab'') PNone
        \<lparr>world = [Message None (Some (PDict [])), Message (Some (lit ''no'')) None], calls = []\<rparr>)
      = \<lparr>status = lit ''success'', data = Some (PDict []), message = lit ''Extraction successful''\<rparr>
   \<and> fst (extract_structured scripted_env (lit ''cd'') (PDict [])
        \<lparr>world = [Message (Some (lit ''no'')) None],
         calls = [(system_prompt_of scripted_env PNone, lit ''ab'')]\<rparr>)
      = \<lparr>status = lit ''failed'', data = None, message = lit ''Refusal: no''\<rparr>
   \<and> process_file scripted_env (char_tokens 2 0) (lit ''abcd'')
        \<lparr>world = [Message None (Some (PDict [])), Message (Some (lit ''no'')) None], calls = []\<rparr>
      = Some (\<lparr>status = lit ''failed'', data = None, message = lit ''Refusal: no''\<rparr>,
              \<lparr>world = [],
               calls = [(system_prompt_of scripted_env PNone, lit ''ab''),
                        (system_prompt_of scripted_env (PDict []), lit ''cd'')]\<rparr>)
   \<and> process_file scripted_env (char_tokens 2 0) (lit ''abcd'')
        \<lparr>world = [Message None (Some (PDict [])), Message (Some (lit ''no'')) None], calls = []\<rparr>
      \<noteq> Some (\<lparr>status = lit ''failed'', data = Some (PDict []),
                message = lit ''Partial failure at chunk 2/2: Refusal: no''\<rparr>,
              \<lparr>world = [],
               calls = [(system_prompt_of scripted_env PNone, lit ''ab''),
                        (system_prompt_of scripted_env (PDict []), lit ''cd'')]\<rparr>)"
proof -
  let ?st = "\<lparr>world = [Message None (Some (PDict [])), Message (Some (lit ''no'')) None],
              calls = []\<rparr>"
  have one: "fst (extract_structured scripted_env (lit ''ab'') PNone ?st)
      = \<lparr>status = lit ''success'', data = Some (PDict []), message = lit ''Extraction successful''\<rparr>"
    by (simp add: scripted_call result_of_completion_def)
  have two: "fst (extract_structured scripted_env (lit ''cd'') (PDict [])
        \<lparr>world = [Message (Some (lit ''no'')) None],
         calls = [(system_prompt_of scripted_env PNone, lit ''ab'')]\<rparr>)
      = \<lparr>status = lit ''failed'', data = None, message = lit ''Refusal: no''\<rparr>"
    by (simp add: scripted_call result_of_completion_def lit_def)
  have a: "extract_text scripted_env (lit ''abcd'') = Inr (lit ''abcd'')"
    by (simp add: scripted_env_def)
  have len: "length [lit ''ab'', lit ''cd''] = 2" by simp
  have pc: "process_chunks scripted_env 2 1 [lit ''ab'', lit ''cd''] PNone ?st
      = (\<lparr>status = lit ''failed'', data = None, message = lit ''Refusal: no''\<rparr>,
         \<lparr>world = [],
          calls = [(system_prompt_of scripted_env PNone, lit ''ab''),
                   (system_prompt_of scripted_env (PDict []), lit ''cd'')]\<rparr>)"
    by (simp add: scripted_call result_of_completion_def lit_def)
  have run: "process_file scripted_env (char_tokens 2 0) (lit ''abcd'') ?st
      = Some (\<lparr>status = lit ''failed'', data = None, message = lit ''Refusal: no''\<rparr>,
              \<lparr>world = [],
               calls = [(system_prompt_of scripted_env PNone, lit ''ab''),
                        (system_prompt_of scripted_env (PDict []), lit ''cd'')]\<rparr>)"
    by (simp only: process_file_def a sum.case strip_abcd if_False chunks_abcd option.case len pc)
  then have "process_file scripted_env (char_tokens 2 0) (lit ''abcd'') ?st
      \<noteq> Some (\<lparr>status = lit ''failed'', data = Some (PDict []),
                message = lit ''Partial failure at chunk 2/2: Refusal: no''\<rparr>,
              \<lparr>world = [],
               calls = [(system_prompt_of scripted_env PNone, lit ''ab''),
                        (system_prompt_of scripted_env (PDict []), lit ''cd'')]\<rparr>)"
    by simp
  with chunks_abcd one two run show ?thesis by blast
qed

text \<open>
  C1, amended. When chunks \<open>1..i-1\<close> (with \<open>2 \<le> i \<le> N\<close>) each give a successful
  result, chunk \<open>i\<close> gives a failed one, and the data of chunk \<open>i - 1\<close> is truthy (a
  non-empty dict), \<open>process_file\<close> returns status \<open>failed\<close>, that data, and the message
  \<open>Partial failure at chunk i/N:\<close> followed by the message of the failed result.
\<close>

theorem process_file_partial_failure:
  assumes "extract_text env path = Inr text" and "py_strip text \<noteq> []"
    and "chunk_text self text = Some chunks"
    and "2 \<le> i" and "i \<le> length chunks"
    and "all_succeed env (take (i - 1) chunks) PNone st = Some (acc, st1)"
    and "extract_structured env (chunks ! (i - 1)) acc st1 = (r, st2)"
    and "status r \<noteq> lit ''success''"
    and "truthy acc"
  shows "process_file env self path st =
         Some (\<lparr>status = lit ''failed'', data = Some acc,
                message = lit ''Partial failure at chunk '' @ str_nat i @ lit ''/''
                          @ str_nat (length chunks) @ lit '': '' @ message r\<rparr>, st2)"
proof -
  from assms(4) have "1 \<le> i" by simp
  from process_file_at_failure [OF assms(1-3) this assms(5-8)] assms(9) show ?thesis by simp
qed

theorem process_file_partial_failure_witness:
  "chunk_text (char_tokens 2 0) (lit ''abcd'') = Some [lit ''ab'', lit ''cd'']
   \<and> all_succeed scripted_env (take (2 - 1) [lit ''ab'', lit ''cd'']) PNone
        \<lparr>world = [Message None (Some (PDict [(lit ''a'', PInt 1)])),
                  Message (Some (lit ''no'')) None], calls = []\<rparr>
      = Some (PDict [(lit ''a'', PInt 1)],
              \<lparr>world = [Message (Some (lit ''no'')) None],
               calls = [(system_prompt_of scripted_env PNone, lit ''ab'')]\<rparr>)
   \<and> truthy (PDict [(lit ''a'', PInt 1)])
   \<and> process_file scripted_env (char_tokens 2 0) (lit ''abcd'')
        \<lparr>world = [Message None (Some (PDict [(lit ''a'', PInt 1)])),
                  Message (Some (lit ''no'')) None], calls = []\<rparr>
      = Some (\<lparr>status = lit ''failed'', data = Some (PDict [(lit ''a'', PInt 1)]),
                message = lit ''Partial failure at chunk 2/2: Refusal: no''\<rparr>,
              \<lparr>world = [],
               calls = [(system_prompt_of scripted_env PNone, lit ''ab''),
                        (system_prompt_of scripted_env (PDict [(lit ''a'', PInt 1)]), lit ''cd'')]\<rparr>)"
proof -
  let ?d = "PDict [(lit ''a'', PInt 1)]"
  let ?st = "\<lparr>world = [Message None (Some ?d), Message (Some (lit ''no'')) None], calls = []\<rparr>"
  let ?st1 = "\<lparr>world = [Message (Some (lit ''no'')) None],
               calls = [(system_prompt_of scripted_env PNone, lit ''ab'')]\<rparr>"
  let ?st2 = "\<lparr>world = [],
               calls = [(system_prompt_of scripted_env PNone, lit ''ab''),
                        (system_prompt_of scripted_env ?d, lit ''cd'')]\<rparr>"
  let ?r = "\<lparr>status = lit ''failed'', data = None, message = lit ''Refusal: no''\<rparr>"
  have a: "extract_text scripted_env (lit ''abcd'') = Inr (lit ''abcd'')"
    by (simp add: scripted_env_def)
  have i: "(2::nat) \<le> 2" "2 \<le> length [lit ''ab'', lit ''cd'']" by simp_all
  have pre: "all_succeed scripted_env (take (2 - 1) [lit ''ab'', lit ''cd'']) PNone ?st
             = Some (?d, ?st1)"
    by (simp add: scripted_call result_of_completion_def)
  have step: "extract_structured scripted_env ([lit ''ab'', lit ''cd''] ! (2 - 1)) ?d ?st1
              = (?r, ?st2)"
    by (simp add: scripted_call result_of_completion_def lit_def)
  have f: "status ?r \<noteq> lit ''success''" by (simp add: lit_def)
  have t: "truthy ?d" by simp
  have m: "lit ''Partial failure at chunk '' @ str_nat 2 @ lit ''/''
           @ str_nat (length [lit ''ab'', lit ''cd'']) @ lit '': '' @ message ?r
           = lit ''Partial failure at chunk 2/2: Refusal: no''"
    by (simp add: lit_def str_nat.simps)
  from process_file_partial_failure [OF a strip_abcd chunks_abcd i pre step f t]
  have "process_file scripted_env (char_tokens 2 0) (lit ''abcd'') ?st =
        Some (\<lparr>status = lit ''failed'', data = Some ?d,
               message = lit ''Partial failure at chunk 2/2: Refusal: no''\<rparr>, ?st2)"
    unfolding m .
  with chunks_abcd pre t show ?thesis by blast
qed

section \<open>Properties of the schema compiler\<close>










text \<open>
  C3. As stated (an absent \<open>type\<close> resolves to the unconstrained any type) the claim
  fails: \<open>field_info.get("type", "string")\<close> makes an absent \<open>type\<close> a string. Here a
  field node that only has a description.
\<close>

theorem resolve_python_type_any_counterexample:
  "resolve_python_type ascii_capitalize (PDict [(lit ''description'', PStr (lit ''a name''))])
     (lit ''Name'') = Inr TStr
   \<and> resolve_python_type ascii_capitalize (PDict [(lit ''description'', PStr (lit ''a name''))])
     (lit ''Name'') \<noteq> Inr TAny"
  by (simp add: dict_get_def resolve_python_type.simps base_type_def lit_def Let_def)

text \<open>
  C3, amended. For every schema field node (a JSON object): when \<open>type\<close> is absent the
  node resolves to the string type; when \<open>type\<close> is present with a scalar JSON value
  (null, a boolean, a number or a string) that is not one of \<open>string\<close>, \<open>integer\<close>,
  \<open>number\<close>, \<open>boolean\<close>, \<open>object\<close>, \<open>array\<close>, the node resolves to the unconstrained any
  type, and the compiler does not fail.
\<close>

theorem resolve_python_type_fallback:
  "(map_of d (lit ''type'') = None \<longrightarrow> resolve_python_type cap (PDict d) hint = Inr TStr)
   \<and> (map_of d (lit ''type'') = Some ty \<and> hashable ty
        \<and> ty \<notin> {PStr (lit ''string''), PStr (lit ''integer''), PStr (lit ''number''),
                  PStr (lit ''boolean''), PStr (lit ''object''), PStr (lit ''array'')}
      \<longrightarrow> resolve_python_type cap (PDict d) hint = Inr TAny)"
proof (intro conjI impI)
  assume "map_of d (lit ''type'') = None"
  then have "dict_get d (lit ''type'') (PStr (lit ''string'')) = PStr (lit ''string'')"
    by (simp add: dict_get_def)
  moreover have "lit ''string'' \<noteq> lit ''array''" "lit ''string'' \<noteq> lit ''object''"
    by (simp_all add: lit_def)
  ultimately show "resolve_python_type cap (PDict d) hint = Inr TStr"
    by (simp add: resolve_python_type.simps base_type_def)
next
  assume a: "map_of d (lit ''type'') = Some ty \<and> hashable ty
        \<and> ty \<notin> {PStr (lit ''string''), PStr (lit ''integer''), PStr (lit ''number''),
                  PStr (lit ''boolean''), PStr (lit ''object''), PStr (lit ''array'')}"
  then have "dict_get d (lit ''type'') (PStr (lit ''string'')) = ty"
    by (simp add: dict_get_def)
  with a show "resolve_python_type cap (PDict d) hint = Inr TAny"
    by (simp add: resolve_python_type.simps base_type_def)
qed

theorem resolve_python_type_fallback_witness:
  "map_of [(lit ''description'', PStr (lit ''a name''))] (lit ''type'') = None
   \<and> resolve_python_type ascii_capitalize (PDict [(lit ''description'', PStr (lit ''a name''))])
       (lit ''Name'') = Inr TStr
   \<and> map_of [(lit ''type'', PStr (lit ''date''))] (lit ''type'') = Some (PStr (lit ''date''))
   \<and> hashable (PStr (lit ''date''))
   \<and> resolve_python_type ascii_capitalize (PDict [(lit ''type'', PStr (lit ''date''))])
       (lit ''Day'') = Inr TAny"
proof -
  have a: "map_of [(lit ''description'', PStr (lit ''a name''))] (lit ''type'') = None"
    by (simp add: lit_def)
  have b: "map_of [(lit ''type'', PStr (lit ''date''))] (lit ''type'') = Some (PStr (lit ''date''))"
    by simp
  have c: "hashable (PStr (lit ''date''))" by simp
  have d: "PStr (lit ''date'') \<notin> {PStr (lit ''string''), PStr (lit ''integer''),
             PStr (lit ''number''), PStr (lit ''boolean''), PStr (lit ''object''),
             PStr (lit ''array'')}"
    by (simp add: lit_def)
  from resolve_python_type_fallback
         [of "[(lit ''description'', PStr (lit ''a name''))]" ascii_capitalize "lit ''Name''"]
       resolve_python_type_fallback
         [of "[(lit ''type'', PStr (lit ''date''))]" ascii_capitalize "lit ''Day''"
             "PStr (lit ''date'')"]
       a b c d
  show ?thesis by blast
qed

end
